theory Spec2Isabelle
  imports Complex_Main "HOL-Library.Char_ord" "HOL-Library.List_Lexorder" "HOL-Library.FSet"
    "HOL-Library.Log_Nat"
begin

section \<open>JavaScript numbers and their text\<close>

text \<open>
  A finite JavaScript number is a double, read as the rational it denotes. An arithmetic
  operation gives the double nearest to its exact result: the result is rounded to 53
  significant binary digits, a tie going to the even significand. The range of the
  exponent is not bounded here, so overflow to infinity and the subnormal numbers are not
  modelled.
\<close>

type_synonym number = rat

definition round_even :: "rat \<Rightarrow> int" where
  "round_even q =
     (let f = \<lfloor>q\<rfloor>; r = q - of_int f
      in if r < 1 / 2 then f else if r > 1 / 2 then f + 1 else if even f then f else f + 1)"

text \<open>The exponent \<open>e\<close> of a positive number \<open>a\<close>: \<open>2^e \<le> a < 2^(e+1)\<close>.\<close>

definition binary_exponent :: "rat \<Rightarrow> int" where
  "binary_exponent a = (if a \<ge> 1 then bitlen \<lfloor>a\<rfloor> - 1 else - bitlen (\<lceil>1 / a\<rceil> - 1))"

definition to_double :: "rat \<Rightarrow> number" where
  "to_double x =
     (if x = 0 then 0
      else (let a = \<bar>x\<bar>; u = 2 powi (binary_exponent a - 52)
            in sgn x * (of_int (round_even (a / u)) * u)))"

definition js_add :: "number \<Rightarrow> number \<Rightarrow> number" where
  "js_add a b = to_double (a + b)"

definition js_sub :: "number \<Rightarrow> number \<Rightarrow> number" where
  "js_sub a b = to_double (a - b)"

definition js_mul :: "number \<Rightarrow> number \<Rightarrow> number" where
  "js_mul a b = to_double (a * b)"

definition js_div :: "number \<Rightarrow> number \<Rightarrow> number" where
  "js_div a b = to_double (a / b)"

text \<open>
  \<open>Math.round\<close> gives the nearest integer, a tie going up; for a double that
  integer is a double again, so nothing is rounded twice.
\<close>

definition Math_round :: "number \<Rightarrow> number" where
  "Math_round x = of_int \<lfloor>x + 1 / 2\<rfloor>"

text \<open>
  The text of a number in a template literal. Whole numbers print their decimal digits,
  which is the host's text for every whole number below \<open>10^21\<close>; any other value
  prints its integer part, a point and the digits of the fraction (at most 17 of them),
  which is the host's text for a short decimal such as \<open>2.5\<close>. The exponent
  notation of very large and very small numbers is not produced.
\<close>

definition digit_char :: "nat \<Rightarrow> char" where
  "digit_char d = char_of (48 + d)"

fun nat_digits :: "nat \<Rightarrow> string" where
  "nat_digits n = (if n < 10 then [digit_char n] else nat_digits (n div 10) @ [digit_char (n mod 10)])"

declare nat_digits.simps [simp del]

fun frac_digits :: "nat \<Rightarrow> rat \<Rightarrow> string" where
  "frac_digits 0 r = []"
| "frac_digits (Suc k) r =
     (if r = 0 then []
      else digit_char (nat \<lfloor>r * 10\<rfloor>) # frac_digits k (r * 10 - of_int \<lfloor>r * 10\<rfloor>))"

definition Number_toString :: "number \<Rightarrow> string" where
  "Number_toString x =
     (let a = \<bar>x\<bar>; whole = nat \<lfloor>a\<rfloor>; r = a - of_int \<lfloor>a\<rfloor>
      in (if x < 0 then ''-'' else '''') @ nat_digits whole @
         (if r = 0 then '''' else ''.'' @ frac_digits 17 r))"

section \<open>The performance monitoring hook\<close>

record PerformanceMetrics =
  memoryUsage :: number
  renderTime :: number
  processingSpeed :: number
  errorRate :: number
  totalRows :: number
  processedRows :: number
  startTime :: number
  lastUpdateTime :: number
  frameRate :: number
  networkRequests :: number
  failedRequests :: number

record PerformanceThresholds =
  maxMemoryUsage :: number
  maxRenderTime :: number
  minProcessingSpeed :: number
  maxErrorRate :: number
  minFrameRate :: number

definition DEFAULT_THRESHOLDS :: PerformanceThresholds where
  "DEFAULT_THRESHOLDS =
     \<lparr>maxMemoryUsage = 500, maxRenderTime = 100, minProcessingSpeed = 1000,
      maxErrorRate = 5, minFrameRate = 30\<rparr>"

text \<open>
  The state of one \<open>usePerformanceMonitoring\<close> instance: the two state cells and the
  two refs of the frame counter. Every callback takes the state and returns the new one;
  the clock readings (\<open>Date.now()\<close>, \<open>performance.now()\<close>) and the host's heap
  gauge are arguments.
\<close>

record monitor =
  metrics :: PerformanceMetrics
  alerts :: "string list"
  frameCount :: number
  lastFrameTime :: number

definition zero_metrics :: "number \<Rightarrow> number \<Rightarrow> PerformanceMetrics" where
  "zero_metrics t0 t1 =
     \<lparr>memoryUsage = 0, renderTime = 0, processingSpeed = 0, errorRate = 0, totalRows = 0,
      processedRows = 0, startTime = t0, lastUpdateTime = t1, frameRate = 0,
      networkRequests = 0, failedRequests = 0\<rparr>"

definition initial_monitor :: "number \<Rightarrow> number \<Rightarrow> number \<Rightarrow> monitor" where
  "initial_monitor t0 t1 t2 =
     \<lparr>metrics = zero_metrics t0 t1, alerts = [], frameCount = 0, lastFrameTime = t2\<rparr>"

text \<open>\<open>prev.includes(alert) ? prev : [...prev, alert]\<close>\<close>

definition add_alert :: "string list \<Rightarrow> string \<Rightarrow> string list" where
  "add_alert prev alert = (if alert \<in> set prev then prev else prev @ [alert])"

text \<open>
  \<open>measureMemoryUsage\<close>: the gauge is \<open>None\<close> on a host without
  \<open>performance.memory\<close>, otherwise the heap size in bytes. The two divisions by
  1024, a power of two, are exact on doubles.
\<close>

definition measureMemoryUsage ::
  "PerformanceThresholds \<Rightarrow> number option \<Rightarrow> number \<Rightarrow> monitor \<Rightarrow> monitor" where
  "measureMemoryUsage th gauge now st =
     (case gauge of
        None \<Rightarrow> st
      | Some usedJSHeapSize \<Rightarrow>
          (let memoryUsageMB = usedJSHeapSize / 1024 / 1024;
               st1 = st\<lparr>metrics := (metrics st)\<lparr>memoryUsage := Math_round memoryUsageMB,
                                                  lastUpdateTime := now\<rparr>\<rparr>
           in if memoryUsageMB > maxMemoryUsage th
              then st1\<lparr>alerts := add_alert (alerts st1)
                     (''High memory usage: '' @ Number_toString (Math_round memoryUsageMB) @
                      ''MB (threshold: '' @ Number_toString (maxMemoryUsage th) @ ''MB)'')\<rparr>
              else st1))"

text \<open>\<open>measureFrameRate\<close>: one animation-frame tick at clock reading \<open>now\<close>.\<close>

definition measureFrameRate :: "PerformanceThresholds \<Rightarrow> number \<Rightarrow> monitor \<Rightarrow> monitor" where
  "measureFrameRate th now st =
     (let count = js_add (frameCount st) 1;
          timeDiff = js_sub now (lastFrameTime st)
      in if timeDiff \<ge> 1000
         then (let fps = Math_round (js_div (js_mul count 1000) timeDiff);
                   st1 = st\<lparr>metrics := (metrics st)\<lparr>frameRate := fps, lastUpdateTime := now\<rparr>,
                            frameCount := 0, lastFrameTime := now\<rparr>
               in if fps < minFrameRate th
                  then st1\<lparr>alerts := add_alert (alerts st1)
                         (''Low frame rate: '' @ Number_toString fps @ ''fps (threshold: '' @
                          Number_toString (minFrameRate th) @ ''fps)'')\<rparr>
                  else st1)
         else st\<lparr>frameCount := count\<rparr>)"

text \<open>
  \<open>measureRenderTime\<close>: \<open>endTime\<close> is the reading of \<open>performance.now()\<close>;
  the new state and the returned render time.
\<close>

definition measureRenderTime ::
  "PerformanceThresholds \<Rightarrow> string \<Rightarrow> number \<Rightarrow> number \<Rightarrow> number \<Rightarrow> monitor \<Rightarrow> monitor \<times> number" where
  "measureRenderTime th componentName start endTime now st =
     (let renderTime' = js_sub endTime start;
          st1 = st\<lparr>metrics := (metrics st)\<lparr>renderTime := Math_round renderTime',
                                             lastUpdateTime := now\<rparr>\<rparr>
      in (if renderTime' > maxRenderTime th
          then st1\<lparr>alerts := add_alert (alerts st1)
                 (''Slow render: '' @ componentName @ '' took '' @
                  Number_toString (Math_round renderTime') @ ''ms (threshold: '' @
                  Number_toString (maxRenderTime th) @ ''ms)'')\<rparr>
          else st1, renderTime'))"

text \<open>\<open>updateProcessingMetrics(totalRows, processedRows, errors)\<close> at clock reading \<open>now\<close>.\<close>

definition updateProcessingMetrics ::
  "PerformanceThresholds \<Rightarrow> number \<Rightarrow> number \<Rightarrow> number \<Rightarrow> number \<Rightarrow> monitor \<Rightarrow> monitor" where
  "updateProcessingMetrics th now totalRows' processedRows' errors st =
     (let elapsedMinutes = js_div (js_sub now (startTime (metrics st))) 60000;
          processingSpeed' =
            (if elapsedMinutes > 0 then Math_round (js_div processedRows' elapsedMinutes) else 0);
          errorRate' =
            (if totalRows' > 0 then Math_round (js_mul (js_div errors totalRows') 100) else 0);
          st1 = st\<lparr>metrics := (metrics st)\<lparr>totalRows := totalRows', processedRows := processedRows',
                     processingSpeed := processingSpeed', errorRate := errorRate',
                     lastUpdateTime := now\<rparr>\<rparr>;
          st2 = (if processingSpeed' > 0 \<and> processingSpeed' < minProcessingSpeed th
                 then st1\<lparr>alerts := add_alert (alerts st1)
                        (''Slow processing: '' @ Number_toString processingSpeed' @
                         '' rows/min (threshold: '' @ Number_toString (minProcessingSpeed th) @
                         '' rows/min)'')\<rparr>
                 else st1)
      in if errorRate' > maxErrorRate th
         then st2\<lparr>alerts := add_alert (alerts st2)
                (''High error rate: '' @ Number_toString errorRate' @ ''% (threshold: '' @
                 Number_toString (maxErrorRate th) @ ''%)'')\<rparr>
         else st2)"

definition trackNetworkRequest :: "bool \<Rightarrow> number \<Rightarrow> monitor \<Rightarrow> monitor" where
  "trackNetworkRequest success now st =
     st\<lparr>metrics := (metrics st)\<lparr>networkRequests := js_add (networkRequests (metrics st)) 1,
            failedRequests := (if success then failedRequests (metrics st)
                               else js_add (failedRequests (metrics st)) 1),
            lastUpdateTime := now\<rparr>\<rparr>"

text \<open>
  The \<open>PerformanceObserver\<close> callback on one entry
  \<open>(entryType, name, duration)\<close>, and on the list of entries of one notification.
\<close>

definition observe_entry ::
  "PerformanceThresholds \<Rightarrow> number \<Rightarrow> string \<times> string \<times> number \<Rightarrow> monitor \<Rightarrow> monitor" where
  "observe_entry th now entry st =
     (case entry of (entryType, entryName, duration) \<Rightarrow>
        if entryType = ''measure''
        then (let st1 = st\<lparr>metrics := (metrics st)\<lparr>renderTime := Math_round duration,
                                                       lastUpdateTime := now\<rparr>\<rparr>
              in if duration > maxRenderTime th
                 then st1\<lparr>alerts := add_alert (alerts st1)
                        (''Performance measure \"'' @ entryName @ ''\" took '' @
                         Number_toString (Math_round duration) @ ''ms'')\<rparr>
                 else st1)
        else st)"

fun observe_entries ::
  "PerformanceThresholds \<Rightarrow> number \<Rightarrow> (string \<times> string \<times> number) list \<Rightarrow> monitor \<Rightarrow> monitor" where
  "observe_entries th now [] st = st"
| "observe_entries th now (e # es) st = observe_entries th now es (observe_entry th now e st)"

definition resetMetrics :: "number \<Rightarrow> number \<Rightarrow> monitor \<Rightarrow> monitor" where
  "resetMetrics t0 t1 st = st\<lparr>metrics := zero_metrics t0 t1, alerts := []\<rparr>"

definition clearAlert :: "string \<Rightarrow> monitor \<Rightarrow> monitor" where
  "clearAlert alertToRemove st = st\<lparr>alerts := filter (\<lambda>alert. alert \<noteq> alertToRemove) (alerts st)\<rparr>"

definition clearAllAlerts :: "monitor \<Rightarrow> monitor" where
  "clearAllAlerts st = st\<lparr>alerts := []\<rparr>"

text \<open>\<open>getPerformanceStatus\<close>: the list of issues is built by the five pushes, in order.\<close>

definition performance_issues :: "PerformanceThresholds \<Rightarrow> PerformanceMetrics \<Rightarrow> string list" where
  "performance_issues th m =
     (if memoryUsage m > maxMemoryUsage th then [''memory''] else []) @
     (if renderTime m > maxRenderTime th then [''render''] else []) @
     (if processingSpeed m > 0 \<and> processingSpeed m < minProcessingSpeed th
      then [''processing''] else []) @
     (if errorRate m > maxErrorRate th then [''errors''] else []) @
     (if frameRate m > 0 \<and> frameRate m < minFrameRate th then [''framerate''] else [])"

definition getPerformanceStatus :: "PerformanceThresholds \<Rightarrow> PerformanceMetrics \<Rightarrow> string" where
  "getPerformanceStatus th m =
     (let issues = performance_issues th m
      in if length issues = 0 then ''good''
         else if length issues \<le> 2 then ''warning''
         else ''critical'')"

text \<open>
  The recording operations as events, and a run of the hook over a sequence of them.
\<close>

datatype monitor_event =
    MemorySample "number option" number
  | FrameTick number
  | RenderMeasured string number number number
  | ProcessingUpdate number number number number
  | NetworkOutcome bool number
  | ObserverEntries number "(string \<times> string \<times> number) list"
  | Reset number number
  | ClearAlert string
  | ClearAllAlerts

fun monitor_step :: "PerformanceThresholds \<Rightarrow> monitor_event \<Rightarrow> monitor \<Rightarrow> monitor" where
  "monitor_step th (MemorySample gauge now) st = measureMemoryUsage th gauge now st"
| "monitor_step th (FrameTick now) st = measureFrameRate th now st"
| "monitor_step th (RenderMeasured name start endTime now) st =
     fst (measureRenderTime th name start endTime now st)"
| "monitor_step th (ProcessingUpdate now total' processed errors) st =
     updateProcessingMetrics th now total' processed errors st"
| "monitor_step th (NetworkOutcome success now) st = trackNetworkRequest success now st"
| "monitor_step th (ObserverEntries now es) st = observe_entries th now es st"
| "monitor_step th (Reset t0 t1) st = resetMetrics t0 t1 st"
| "monitor_step th (ClearAlert a) st = clearAlert a st"
| "monitor_step th ClearAllAlerts st = clearAllAlerts st"

fun monitor_run :: "PerformanceThresholds \<Rightarrow> monitor_event list \<Rightarrow> monitor \<Rightarrow> monitor" where
  "monitor_run th [] st = st"
| "monitor_run th (e # es) st = monitor_run th es (monitor_step th e st)"


section \<open>JavaScript values and their comparison\<close>

text \<open>
  The values a cell or an enrichment can hold. A number is finite, infinite or NaN; a
  string is the list of its code units (those below 256); an array holds strings.
\<close>

datatype jsnum = NaN | NegInfinity | Finite rat | PosInfinity

datatype jsval =
    JUndefined
  | JNull
  | JBool bool
  | JNumber jsnum
  | JString string
  | JArray "string list"

fun num_lt :: "jsnum \<Rightarrow> jsnum \<Rightarrow> bool" where
  "num_lt NaN y = False"
| "num_lt x NaN = False"
| "num_lt NegInfinity NegInfinity = False"
| "num_lt NegInfinity y = True"
| "num_lt (Finite a) (Finite b) = (a < b)"
| "num_lt (Finite a) PosInfinity = True"
| "num_lt (Finite a) NegInfinity = False"
| "num_lt PosInfinity y = False"

text \<open>
  The conversion of a string to a number (\<open>StringToNumber\<close>): white space is
  trimmed, the empty string is 0, then a hexadecimal, octal or binary integer literal, or
  a signed decimal literal with optional fraction and exponent, or a signed
  \<open>Infinity\<close>; anything else is NaN.
\<close>

definition is_white_space :: "char \<Rightarrow> bool" where
  "is_white_space c = (of_char c \<in> set [9, 10, 11, 12, 13, 32, 160 :: nat])"

definition trim_white_space :: "string \<Rightarrow> string" where
  "trim_white_space s = rev (dropWhile is_white_space (rev (dropWhile is_white_space s)))"

definition digit_value :: "nat \<Rightarrow> char \<Rightarrow> nat option" where
  "digit_value radix c =
     (let n = of_char c :: nat;
          d = (if 48 \<le> n \<and> n \<le> 57 then Some (n - 48)
               else if 97 \<le> n \<and> n \<le> 102 then Some (n - 87)
               else if 65 \<le> n \<and> n \<le> 70 then Some (n - 55)
               else None)
      in case d of None \<Rightarrow> None | Some v \<Rightarrow> if v < radix then Some v else None)"

fun digits_value :: "nat \<Rightarrow> string \<Rightarrow> nat \<Rightarrow> nat option" where
  "digits_value radix [] acc = Some acc"
| "digits_value radix (c # cs) acc =
     (case digit_value radix c of
        None \<Rightarrow> None
      | Some d \<Rightarrow> digits_value radix cs (acc * radix + d))"

definition parse_digits :: "nat \<Rightarrow> string \<Rightarrow> nat option" where
  "parse_digits radix s = (if s = [] then None else digits_value radix s 0)"

definition parse_exponent :: "string \<Rightarrow> int option" where
  "parse_exponent s =
     (case s of
        [] \<Rightarrow> None
      | c # ds \<Rightarrow>
          if c = CHR ''+'' then map_option int (parse_digits 10 ds)
          else if c = CHR ''-'' then map_option (\<lambda>n. - int n) (parse_digits 10 ds)
          else map_option int (parse_digits 10 s))"

definition scale10 :: "rat \<Rightarrow> int \<Rightarrow> rat" where
  "scale10 q e = (if e \<ge> 0 then q * 10 ^ nat e else q / 10 ^ nat (- e))"

definition parse_decimal :: "string \<Rightarrow> rat option" where
  "parse_decimal s =
     (let not_e = (\<lambda>c. c \<noteq> CHR ''e'' \<and> c \<noteq> CHR ''E'');
          mantissa = takeWhile not_e s;
          rest = dropWhile not_e s;
          exponent = (if rest = [] then Some 0 else parse_exponent (tl rest));
          not_point = (\<lambda>c. c \<noteq> CHR ''.'');
          whole = takeWhile not_point mantissa;
          after = dropWhile not_point mantissa;
          fraction = (if after = [] then [] else tl after)
      in if (if after = [] then whole = [] else whole = [] \<and> fraction = []) then None
         else (case (digits_value 10 whole 0, digits_value 10 fraction 0, exponent) of
                 (Some w, Some f, Some e) \<Rightarrow>
                   Some (scale10 (of_nat w + of_nat f / 10 ^ length fraction) e)
               | _ \<Rightarrow> None))"

definition radix_prefix :: "string \<Rightarrow> nat option" where
  "radix_prefix t =
     (case t of
        c # x # ds \<Rightarrow>
          if c \<noteq> CHR ''0'' then None
          else if x = CHR ''x'' \<or> x = CHR ''X'' then Some 16
          else if x = CHR ''o'' \<or> x = CHR ''O'' then Some 8
          else if x = CHR ''b'' \<or> x = CHR ''B'' then Some 2
          else None
      | _ \<Rightarrow> None)"

definition StringToNumber :: "string \<Rightarrow> jsnum" where
  "StringToNumber s =
     (let t = trim_white_space s
      in if t = [] then Finite 0
         else (case radix_prefix t of
                 Some radix \<Rightarrow>
                   (case parse_digits radix (drop 2 t) of
                      None \<Rightarrow> NaN
                    | Some n \<Rightarrow> Finite (of_nat n))
               | None \<Rightarrow>
                   (let negative = (hd t = CHR ''-'');
                        body = (if hd t = CHR ''+'' \<or> hd t = CHR ''-'' then tl t else t)
                    in if body = ''Infinity'' then (if negative then NegInfinity else PosInfinity)
                       else (case parse_decimal body of
                               None \<Rightarrow> NaN
                             | Some q \<Rightarrow> Finite (if negative then - q else q)))))"

text \<open>\<open>Array.prototype.join\<close> on an array of strings.\<close>

fun join :: "string \<Rightarrow> string list \<Rightarrow> string" where
  "join sep [] = []"
| "join sep [x] = x"
| "join sep (x # y # ys) = x @ sep @ join sep (y # ys)"

fun ToPrimitive :: "jsval \<Rightarrow> jsval" where
  "ToPrimitive (JArray xs) = JString (join '','' xs)"
| "ToPrimitive v = v"

fun ToNumber :: "jsval \<Rightarrow> jsnum" where
  "ToNumber JUndefined = NaN"
| "ToNumber JNull = Finite 0"
| "ToNumber (JBool b) = Finite (if b then 1 else 0)"
| "ToNumber (JNumber n) = n"
| "ToNumber (JString s) = StringToNumber s"
| "ToNumber (JArray xs) = StringToNumber (join '','' xs)"

fun ToBoolean :: "jsval \<Rightarrow> bool" where
  "ToBoolean JUndefined = False"
| "ToBoolean JNull = False"
| "ToBoolean (JBool b) = b"
| "ToBoolean (JNumber n) = (n \<noteq> NaN \<and> n \<noteq> Finite 0)"
| "ToBoolean (JString s) = (s \<noteq> [])"
| "ToBoolean (JArray xs) = True"

text \<open>
  \<open>a < b\<close>: two strings compare by code units, anything else as numbers, where NaN
  is below nothing and above nothing. \<open>a > b\<close> is \<open>b < a\<close>; \<open>a || b\<close> is
  \<open>a\<close> when it is truthy.
\<close>

fun primitive_lt :: "jsval \<Rightarrow> jsval \<Rightarrow> bool" where
  "primitive_lt (JString s) (JString t) = (s < t)"
| "primitive_lt a b = num_lt (ToNumber a) (ToNumber b)"

definition js_lt :: "jsval \<Rightarrow> jsval \<Rightarrow> bool" where
  "js_lt a b = primitive_lt (ToPrimitive a) (ToPrimitive b)"

definition js_gt :: "jsval \<Rightarrow> jsval \<Rightarrow> bool" where
  "js_gt a b = js_lt b a"

definition js_or :: "jsval \<Rightarrow> jsval \<Rightarrow> jsval" where
  "js_or a b = (if ToBoolean a then a else b)"

text \<open>\<open>String(value)\<close> of a number.\<close>

fun jsnum_toString :: "jsnum \<Rightarrow> string" where
  "jsnum_toString NaN = ''NaN''"
| "jsnum_toString NegInfinity = ''-Infinity''"
| "jsnum_toString PosInfinity = ''Infinity''"
| "jsnum_toString (Finite q) = Number_toString q"

section \<open>The virtual table\<close>

text \<open>
  A row of the dataset is an object: \<open>ref\<close> is its identity (what \<open>===\<close> and
  \<open>indexOf\<close> compare), \<open>cells\<close> its own properties in the order
  \<open>Object.values\<close> lists them; a column name is taken not to be the name of a
  property that every object inherits. An enrichment carries the value and the confidence
  the table reads; an absent confidence or status is \<open>None\<close>. The result store
  is the \<open>Map\<close> from row index to row result.
\<close>

record CSVRow =
  ref :: nat
  cells :: "(string \<times> string) list"

record EnrichmentField =
  name :: string
  displayName :: string

record EnrichmentResult =
  "value" :: jsval
  confidence :: "number option"

record RowEnrichmentResult =
  status :: "string option"
  enrichments :: "string \<rightharpoonup> EnrichmentResult"

type_synonym ResultStore = "int \<rightharpoonup> RowEnrichmentResult"

datatype direction = asc | desc

record SortConfig =
  key :: string
  direction :: direction

text \<open>\<open>Array.prototype.indexOf\<close>: the first position of the element, or -1.\<close>

fun indexOf :: "'a list \<Rightarrow> 'a \<Rightarrow> int" where
  "indexOf [] x = - 1"
| "indexOf (y # ys) x =
     (if y = x then 0 else (let i = indexOf ys x in if i < 0 then - 1 else i + 1))"

text \<open>
  \<open>Array.prototype.sort\<close> with a comparator, as a stable insertion sort: an element
  goes before the first element of the sorted rest that it does not compare above. For a
  consistent comparator this is the order every conforming engine produces, and it is
  only for a consistent comparator that this definition stands for the engine.
\<close>

fun insert_by :: "('a \<Rightarrow> 'a \<Rightarrow> int) \<Rightarrow> 'a \<Rightarrow> 'a list \<Rightarrow> 'a list" where
  "insert_by cmp x [] = [x]"
| "insert_by cmp x (y # ys) = (if cmp x y \<le> 0 then x # y # ys else y # insert_by cmp x ys)"

definition array_sort :: "('a \<Rightarrow> 'a \<Rightarrow> int) \<Rightarrow> 'a list \<Rightarrow> 'a list" where
  "array_sort cmp xs = foldr (insert_by cmp) xs []"

text \<open>
  When the comparator is not consistent the language leaves the order to the engine. This
  is the order of the V8 engine (Chrome, Node.js) for an array of fewer than 64 elements,
  which its TimSort treats as one run: the longest initial run is found (\<open>CountAndMakeRun\<close>:
  non-descending, or strictly descending and then reversed), and each further element is
  put at the place a binary search finds (\<open>BinaryInsertionSort\<close>). The merging of the
  runs of a longer array is not modelled.
\<close>

fun count_run :: "('a \<Rightarrow> 'a \<Rightarrow> int) \<Rightarrow> bool \<Rightarrow> 'a \<Rightarrow> 'a list \<Rightarrow> nat" where
  "count_run cmp descending previous [] = 0"
| "count_run cmp descending previous (current # rest) =
     (let order = cmp current previous
      in if (if descending then order \<ge> 0 else order < 0) then 0
         else Suc (count_run cmp descending current rest))"

definition count_and_make_run :: "('a \<Rightarrow> 'a \<Rightarrow> int) \<Rightarrow> 'a list \<Rightarrow> 'a list \<times> nat" where
  "count_and_make_run cmp a =
     (case a of
        x0 # x1 # rest \<Rightarrow>
          (let descending = (cmp x1 x0 < 0);
               runLength = 2 + count_run cmp descending x1 rest
           in (if descending then rev (take runLength a) @ drop runLength a else a, runLength))
      | _ \<Rightarrow> (a, length a))"

function binary_search :: "('a \<Rightarrow> 'a \<Rightarrow> int) \<Rightarrow> 'a \<Rightarrow> 'a list \<Rightarrow> nat \<Rightarrow> nat \<Rightarrow> nat" where
  "binary_search cmp pivot a left right =
     (if left < right
      then (let mid = left + (right - left) div 2
            in if cmp pivot (a ! mid) < 0 then binary_search cmp pivot a left mid
               else binary_search cmp pivot a (mid + 1) right)
      else left)"
  by pat_completeness auto
termination
  by (relation "measure (\<lambda>(cmp, pivot, a, left, right). right - left)") auto

declare binary_search.simps [simp del]

fun binary_insertion_sort :: "('a \<Rightarrow> 'a \<Rightarrow> int) \<Rightarrow> 'a list \<Rightarrow> nat \<Rightarrow> nat \<Rightarrow> 'a list" where
  "binary_insertion_sort cmp a start 0 = a"
| "binary_insertion_sort cmp a start (Suc remaining) =
     (let pivot = a ! start;
          left = binary_search cmp pivot a 0 start;
          a' = take left a @ pivot # take (start - left) (drop left a) @ drop (start + 1) a
      in binary_insertion_sort cmp a' (start + 1) remaining)"

definition v8_sort :: "('a \<Rightarrow> 'a \<Rightarrow> int) \<Rightarrow> 'a list \<Rightarrow> 'a list" where
  "v8_sort cmp a =
     (if length a < 2 then a
      else (case count_and_make_run cmp a of
              (b, runLength) \<Rightarrow> binary_insertion_sort cmp b runLength (length a - runLength)))"

text \<open>
  The value a row is sorted by (\<open>aValue\<close>, \<open>bValue\<close> of the comparator): the
  identity cell for the key \<open>email\<close>, otherwise the enrichment value of the field,
  or the empty string when that is missing or falsy.
\<close>

definition email_value :: "string option \<Rightarrow> CSVRow \<Rightarrow> jsval" where
  "email_value emailColumn a =
     (case emailColumn of
        Some c \<Rightarrow>
          if c \<noteq> [] then (case map_of (cells a) c of None \<Rightarrow> JUndefined | Some v \<Rightarrow> JString v)
          else (case cells a of [] \<Rightarrow> JUndefined | kv # _ \<Rightarrow> JString (snd kv))
      | None \<Rightarrow> (case cells a of [] \<Rightarrow> JUndefined | kv # _ \<Rightarrow> JString (snd kv)))"

definition enrichment_value :: "RowEnrichmentResult option \<Rightarrow> string \<Rightarrow> jsval" where
  "enrichment_value result fieldName =
     (case result of
        None \<Rightarrow> JUndefined
      | Some r \<Rightarrow> (case enrichments r fieldName of None \<Rightarrow> JUndefined | Some e \<Rightarrow> value e))"

definition sort_value ::
  "CSVRow list \<Rightarrow> ResultStore \<Rightarrow> string option \<Rightarrow> SortConfig \<Rightarrow> CSVRow \<Rightarrow> jsval" where
  "sort_value rows results emailColumn sortConfig a =
     (if key sortConfig = ''email'' then email_value emailColumn a
      else js_or (enrichment_value (results (indexOf rows a)) (key sortConfig)) (JString []))"

definition compare_rows ::
  "CSVRow list \<Rightarrow> ResultStore \<Rightarrow> string option \<Rightarrow> SortConfig \<Rightarrow> CSVRow \<Rightarrow> CSVRow \<Rightarrow> int" where
  "compare_rows rows results emailColumn sortConfig a b =
     (let aValue = sort_value rows results emailColumn sortConfig a;
          bValue = sort_value rows results emailColumn sortConfig b
      in if js_lt aValue bValue then (if direction sortConfig = asc then - 1 else 1)
         else if js_gt aValue bValue then (if direction sortConfig = asc then 1 else - 1)
         else 0)"

definition sortedData ::
  "CSVRow list \<Rightarrow> ResultStore \<Rightarrow> string option \<Rightarrow> SortConfig option \<Rightarrow> CSVRow list" where
  "sortedData rows results emailColumn sortConfig =
     (case sortConfig of
        None \<Rightarrow> rows
      | Some cfg \<Rightarrow> array_sort (compare_rows rows results emailColumn cfg) rows)"

text \<open>\<open>sortedData\<close> as the V8 engine computes it (for fewer than 64 rows).\<close>

definition sortedData_v8 ::
  "CSVRow list \<Rightarrow> ResultStore \<Rightarrow> string option \<Rightarrow> SortConfig option \<Rightarrow> CSVRow list" where
  "sortedData_v8 rows results emailColumn sortConfig =
     (case sortConfig of
        None \<Rightarrow> rows
      | Some cfg \<Rightarrow> v8_sort (compare_rows rows results emailColumn cfg) rows)"

definition handleSort :: "string \<Rightarrow> SortConfig option \<Rightarrow> SortConfig option" where
  "handleSort k current =
     (case current of
        Some cfg \<Rightarrow>
          if key cfg = k
          then Some \<lparr>key = k, direction = (if direction cfg = asc then desc else asc)\<rparr>
          else Some \<lparr>key = k, direction = asc\<rparr>
      | None \<Rightarrow> Some \<lparr>key = k, direction = asc\<rparr>)"

text \<open>The selection is a \<open>Set\<close> of row indices.\<close>

definition handleRowSelect :: "int \<Rightarrow> bool \<Rightarrow> int fset \<Rightarrow> int fset" where
  "handleRowSelect rowIndex selected prev =
     (if selected then finsert rowIndex prev else prev |-| {|rowIndex|})"

definition handleSelectAll :: "CSVRow list \<Rightarrow> int fset \<Rightarrow> int fset" where
  "handleSelectAll rows selectedRows =
     (if fcard selectedRows = length rows then {||}
      else fset_of_list (map int [0..<length rows]))"

definition getRowStatus :: "ResultStore \<Rightarrow> int \<Rightarrow> int \<Rightarrow> string" where
  "getRowStatus results currentProcessingRow rowIndex =
     (case results rowIndex of
        None \<Rightarrow> if currentProcessingRow = rowIndex then ''processing'' else ''pending''
      | Some result \<Rightarrow>
          (case status result of
             None \<Rightarrow> ''completed''
           | Some s \<Rightarrow> if s \<noteq> [] then s else ''completed''))"

fun formatValue :: "jsval \<Rightarrow> string" where
  "formatValue JUndefined = ''-''"
| "formatValue JNull = ''-''"
| "formatValue (JArray xs) = join '', '' xs"
| "formatValue (JBool b) = (if b then ''Yes'' else ''No'')"
| "formatValue (JNumber n) = jsnum_toString n"
| "formatValue (JString s) = s"

text \<open>
  What \<open>{confidence && (<Badge>...</Badge>)}\<close> puts into a field cell: nothing for an
  absent confidence, the number itself for 0, the badge with the rounded percentage
  otherwise. A field cell of \<open>Row\<close> is the formatted value and that node.
\<close>

datatype node = Badge string | TextNode string

definition confidence_node :: "number option \<Rightarrow> node option" where
  "confidence_node confidence' =
     (case confidence' of
        None \<Rightarrow> None
      | Some c \<Rightarrow>
          if c = 0 then Some (TextNode (Number_toString c))
          else Some (Badge (Number_toString (Math_round (js_mul c 100)) @ ''%'')))"

definition field_cell :: "RowEnrichmentResult option \<Rightarrow> string \<Rightarrow> string \<times> node option" where
  "field_cell result fieldName =
     (let enrichment = (case result of None \<Rightarrow> None | Some r \<Rightarrow> enrichments r fieldName);
          value' = (case enrichment of None \<Rightarrow> JUndefined | Some e \<Rightarrow> value e);
          confidence' = (case enrichment of None \<Rightarrow> None | Some e \<Rightarrow> confidence e)
      in (formatValue value', confidence_node confidence'))"

definition row_field_cells ::
  "CSVRow list \<Rightarrow> ResultStore \<Rightarrow> EnrichmentField list \<Rightarrow> CSVRow \<Rightarrow>
     (string \<times> node option) list" where
  "row_field_cells rows results fields' row =
     map (\<lambda>field. field_cell (results (indexOf rows row)) (name field)) fields'"

text \<open>
  The auto-scroll effect, run when \<open>currentProcessingRow\<close> changes: the item index
  it hands to \<open>scrollToItem(index, 'center')\<close> of the list, if it scrolls. The list
  shows \<open>sortedData\<close>, one item per position.
\<close>

definition autoScroll :: "int \<Rightarrow> bool \<Rightarrow> int option" where
  "autoScroll currentProcessingRow listMounted =
     (if currentProcessingRow \<ge> 0 \<and> listMounted then Some currentProcessingRow else None)"

text \<open>
  The comparator is consistent on a dataset when "not above" is transitive on its rows;
  only then does the language fix the order \<open>sort\<close> produces.
\<close>

definition consistent_on :: "('a \<Rightarrow> 'a \<Rightarrow> int) \<Rightarrow> 'a list \<Rightarrow> bool" where
  "consistent_on cmp xs =
     list_all (\<lambda>x. list_all (\<lambda>y. list_all (\<lambda>z.
       if cmp x y \<le> 0 \<and> cmp y z \<le> 0 then cmp x z \<le> 0 else True) xs) xs) xs"

subsection \<open>Datasets of the test scenarios\<close>

text \<open>
  The three rows of the end-to-end scenario and the result store after its two stream
  events: row 1 completed with score 42 at confidence 0.9, row 0 failed with no
  enrichments.
\<close>

definition scenario_rows :: "CSVRow list" where
  "scenario_rows =
     [\<lparr>ref = 0, cells = [(''email'', ''a@x.com'')]\<rparr>,
      \<lparr>ref = 1, cells = [(''email'', ''b@x.com'')]\<rparr>,
      \<lparr>ref = 2, cells = [(''email'', ''c@x.com'')]\<rparr>]"

definition scenario_results :: ResultStore where
  "scenario_results =
     [1 \<mapsto> \<lparr>status = Some ''completed'',
             enrichments = [''score'' \<mapsto> \<lparr>value = JNumber (Finite 42),
                                       confidence = Some (to_double (9 / 10))\<rparr>]\<rparr>,
      0 \<mapsto> \<lparr>status = Some ''error'', enrichments = Map.empty\<rparr>]"

definition by_score :: SortConfig where
  "by_score = \<lparr>key = ''score'', direction = asc\<rparr>"

definition by_email :: SortConfig where
  "by_email = \<lparr>key = ''email'', direction = asc\<rparr>"

text \<open>Rows whose identity cells are in descending order, and rows with repeated cells.\<close>

definition reversed_rows :: "CSVRow list" where
  "reversed_rows =
     [\<lparr>ref = 0, cells = [(''email'', ''c@x.com'')]\<rparr>,
      \<lparr>ref = 1, cells = [(''email'', ''b@x.com'')]\<rparr>,
      \<lparr>ref = 2, cells = [(''email'', ''a@x.com'')]\<rparr>]"

definition duplicate_rows :: "CSVRow list" where
  "duplicate_rows =
     [\<lparr>ref = 0, cells = [(''email'', ''b@x.com'')]\<rparr>,
      \<lparr>ref = 1, cells = [(''email'', ''a@x.com'')]\<rparr>,
      \<lparr>ref = 2, cells = [(''email'', ''b@x.com'')]\<rparr>,
      \<lparr>ref = 3, cells = [(''email'', ''a@x.com'')]\<rparr>]"

text \<open>Result stores in which one row has a score of 0, or of -5.\<close>

definition scored :: "jsval \<Rightarrow> RowEnrichmentResult" where
  "scored v = \<lparr>status = Some ''completed'',
               enrichments = [''score'' \<mapsto> \<lparr>value = v, confidence = Some 1\<rparr>]\<rparr>"

definition zero_score_results :: ResultStore where
  "zero_score_results = [0 \<mapsto> scored (JNumber (Finite 0)), 2 \<mapsto> scored (JString ''x'')]"

definition negative_score_results :: ResultStore where
  "negative_score_results = [1 \<mapsto> scored (JNumber (Finite (- 5)))]"

text \<open>
  Seven rows of a file with the columns \<open>name\<close> and \<open>email\<close>, the fifth cut
  short before its \<open>email\<close> cell.
\<close>

definition gapped_rows :: "CSVRow list" where
  "gapped_rows =
     [\<lparr>ref = 0, cells = [(''name'', ''r0''), (''email'', ''a@x.com'')]\<rparr>,
      \<lparr>ref = 1, cells = [(''name'', ''r1''), (''email'', ''a@x.com'')]\<rparr>,
      \<lparr>ref = 2, cells = [(''name'', ''r2''), (''email'', ''b@x.com'')]\<rparr>,
      \<lparr>ref = 3, cells = [(''name'', ''r3''), (''email'', ''a@x.com'')]\<rparr>,
      \<lparr>ref = 4, cells = [(''name'', ''r4'')]\<rparr>,
      \<lparr>ref = 5, cells = [(''name'', ''r5''), (''email'', ''a@x.com'')]\<rparr>,
      \<lparr>ref = 6, cells = [(''name'', ''r6''), (''email'', ''a@x.com'')]\<rparr>]"



definition low_confidence_result :: RowEnrichmentResult where
  "low_confidence_result =
     \<lparr>status = Some ''completed'',
      enrichments = [''stage'' \<mapsto> \<lparr>value = JString ''seed'',
                                   confidence = Some (to_double (15 / 1000))\<rparr>]\<rparr>"

text \<open>
  The count of breached thresholds as the specification words it: one for each of
  memory, render time, processing speed (only when a speed has been measured), error rate
  and frame rate (only when measured).
\<close>

definition breached_count :: "PerformanceThresholds \<Rightarrow> PerformanceMetrics \<Rightarrow> nat" where
  "breached_count th m =
     (if memoryUsage m > maxMemoryUsage th then 1 else 0) +
     (if renderTime m > maxRenderTime th then 1 else 0) +
     (if processingSpeed m > 0 \<and> processingSpeed m < minProcessingSpeed th then 1 else 0) +
     (if errorRate m > maxErrorRate th then 1 else 0) +
     (if frameRate m > 0 \<and> frameRate m < minFrameRate th then 1 else 0)"

section \<open>Properties of the rounding to doubles\<close>

lemma round_even_ge_floor: "\<lfloor>q\<rfloor> \<le> round_even q"
  by (simp add: round_even_def Let_def)

lemma round_even_pos: "1 \<le> q \<Longrightarrow> 1 \<le> round_even q"
proof -
  assume "1 \<le> q"
  then have "1 \<le> \<lfloor>q\<rfloor>" by simp
  with round_even_ge_floor[of q] show ?thesis by linarith
qed

lemma binary_exponent_lower:
  assumes "0 < a"
  shows "2 powi (binary_exponent a) \<le> a"
proof (cases "1 \<le> a")
  case True
  then have pos: "0 < \<lfloor>a\<rfloor>" by simp
  then have b1: "1 \<le> bitlen \<lfloor>a\<rfloor>" by (auto simp: bitlen_alt_def)
  from bitlen_bounds[OF pos] have "(2::int) ^ nat (bitlen \<lfloor>a\<rfloor> - 1) \<le> \<lfloor>a\<rfloor>" ..
  then have "(of_int ((2::int) ^ nat (bitlen \<lfloor>a\<rfloor> - 1)) :: rat) \<le> of_int \<lfloor>a\<rfloor>"
    by (simp only: of_int_le_iff)
  also have "\<dots> \<le> a" by simp
  finally have "(2::rat) ^ nat (bitlen \<lfloor>a\<rfloor> - 1) \<le> a" by simp
  moreover have "(2::rat) powi (bitlen \<lfloor>a\<rfloor> - 1) = 2 ^ nat (bitlen \<lfloor>a\<rfloor> - 1)"
    using b1 by (simp add: power_int_def)
  ultimately show ?thesis using True by (simp add: binary_exponent_def)
next
  case False
  let ?c = "\<lceil>1 / a\<rceil>"
  let ?j = "bitlen (?c - 1)"
  from False assms have "1 < 1 / a" by simp
  then have c2: "2 \<le> ?c" by (simp add: le_ceiling_iff)
  then have pos: "0 < ?c - 1" by simp
  from bitlen_bounds[OF pos] have "?c - 1 < 2 ^ nat ?j" ..
  then have "?c \<le> 2 ^ nat ?j" by simp
  then have "(of_int ?c :: rat) \<le> of_int (2 ^ nat ?j)" by (simp only: of_int_le_iff)
  then have "(of_int ?c :: rat) \<le> 2 ^ nat ?j" by (simp only: of_int_power of_int_numeral)
  moreover have "1 / a \<le> of_int ?c" by (rule le_of_int_ceiling)
  ultimately have "1 / a \<le> (2::rat) ^ nat ?j" by (rule order_trans[rotated])
  with assms have "1 / (2::rat) ^ nat ?j \<le> a"
    by (simp add: field_simps)
  moreover have "(2::rat) powi (- ?j) = 1 / 2 ^ nat ?j"
    using bitlen_nonneg[of "?c - 1"] by (simp add: power_int_def field_simps)
  ultimately show ?thesis using False by (simp add: binary_exponent_def)
qed

lemma to_double_pos:
  assumes "0 < x"
  shows "0 < to_double x"
proof -
  let ?e = "binary_exponent x"
  let ?u = "(2::rat) powi (?e - 52)"
  have u: "0 < ?u" by (simp add: zero_less_power_int)
  have "?u \<le> 2 powi ?e" by (rule power_int_increasing) simp_all
  also have "\<dots> \<le> x" using assms by (rule binary_exponent_lower)
  finally have "1 \<le> x / ?u" using u by (simp add: field_simps)
  then have "1 \<le> round_even (x / ?u)" by (rule round_even_pos)
  then have "0 < (of_int (round_even (x / ?u)) :: rat) * ?u" using u by simp
  then show ?thesis using assms by (simp add: to_double_def Let_def)
qed

lemma to_double_minus: "to_double (- x) = - to_double x"
  by (simp add: to_double_def Let_def)

lemma to_double_pos_iff: "(0 < to_double x) = (0 < x)"
proof (cases "0 < x")
  case True
  then show ?thesis by (simp add: to_double_pos)
next
  case False
  show ?thesis
  proof (cases "x = 0")
    case True
    then show ?thesis by (simp add: to_double_def)
  next
    case nz: False
    with False have "0 < - x" by simp
    then have "0 < to_double (- x)" by (rule to_double_pos)
    then have "to_double x < 0" by (simp add: to_double_minus)
    with False show ?thesis by simp
  qed
qed

lemma js_div_pos_iff: "0 < b \<Longrightarrow> (0 < js_div a b) = (0 < a)"
  by (simp add: js_div_def to_double_pos_iff zero_less_divide_iff)

lemma js_sub_pos_iff: "(0 < js_sub a b) = (b < a)"
  by (simp add: js_sub_def to_double_pos_iff)

section \<open>Properties of the performance monitoring hook\<close>

lemma distinct_add_alert: "distinct prev \<Longrightarrow> distinct (add_alert prev a)"
  by (simp add: add_alert_def)

lemma observe_entry_distinct:
  "distinct (alerts st) \<Longrightarrow> distinct (alerts (observe_entry th now e st))"
  by (cases e) (simp add: observe_entry_def Let_def distinct_add_alert)

lemma observe_entries_distinct:
  "distinct (alerts st) \<Longrightarrow> distinct (alerts (observe_entries th now es st))"
  by (induction es arbitrary: st) (simp_all add: observe_entry_distinct)

lemma monitor_step_distinct:
  "distinct (alerts st) \<Longrightarrow> distinct (alerts (monitor_step th e st))"
  by (cases e)
     (simp_all add: measureMemoryUsage_def measureFrameRate_def measureRenderTime_def
       updateProcessingMetrics_def trackNetworkRequest_def resetMetrics_def clearAlert_def
       clearAllAlerts_def Let_def distinct_add_alert observe_entries_distinct
       split: option.splits)

lemma monitor_run_distinct:
  "distinct (alerts st) \<Longrightarrow> distinct (alerts (monitor_run th es st))"
  by (induction es arbitrary: st) (simp_all add: monitor_step_distinct)

lemma add_alert_again: "add_alert (add_alert prev a) a = add_alert prev a"
  by (simp add: add_alert_def)

text \<open>
  C5, as amended. A processing update reports speed 0 when no time has elapsed since the
  start of the run and error rate 0 when there are no rows; otherwise the speed is the
  rounded quotient of the processed rows by the elapsed minutes, and the error rate is the
  rounded product of the quotient of errors by rows with 100, every operation giving the
  nearest double, in this order.
\<close>

theorem processing_update_rates:
  "(now - startTime (metrics st) \<le> 0 \<longrightarrow>
      processingSpeed (metrics (updateProcessingMetrics th now total' processed errors st)) = 0) \<and>
   (total' \<le> 0 \<longrightarrow>
      errorRate (metrics (updateProcessingMetrics th now total' processed errors st)) = 0) \<and>
   (now - startTime (metrics st) > 0 \<longrightarrow>
      processingSpeed (metrics (updateProcessingMetrics th now total' processed errors st)) =
        Math_round (js_div processed (js_div (js_sub now (startTime (metrics st))) 60000))) \<and>
   (total' > 0 \<longrightarrow>
      errorRate (metrics (updateProcessingMetrics th now total' processed errors st)) =
        Math_round (js_mul (js_div errors total') 100))"
  by (simp add: updateProcessingMetrics_def Let_def js_div_pos_iff js_sub_pos_iff)

text \<open>
  The two runs of the specification, \<open>(100, 0, 0)\<close> at the start of the run and
  \<open>(100, 50, 5)\<close> one minute (60000 ms) later; 3 rows after 1600 ms, a speed of
  112; and 23 errors in 40 rows, an error rate of 57.
\<close>

theorem processing_update_rates_witness:
  "processingSpeed (metrics (updateProcessingMetrics DEFAULT_THRESHOLDS 7 100 0 0
      (initial_monitor 7 7 7))) = 0 \<and>
   processingSpeed (metrics (updateProcessingMetrics DEFAULT_THRESHOLDS 60007 100 50 5
      (initial_monitor 7 7 7))) = 50 \<and>
   errorRate (metrics (updateProcessingMetrics DEFAULT_THRESHOLDS 60007 100 50 5
      (initial_monitor 7 7 7))) = 5 \<and>
   processingSpeed (metrics (updateProcessingMetrics DEFAULT_THRESHOLDS 1607 100 3 0
      (initial_monitor 7 7 7))) = 112 \<and>
   errorRate (metrics (updateProcessingMetrics DEFAULT_THRESHOLDS 60007 40 40 23
      (initial_monitor 7 7 7))) = 57"
proof -
  have start: "startTime (metrics (initial_monitor 7 7 7)) = 7"
    by (simp add: initial_monitor_def zero_metrics_def)
  have speed: "Math_round (js_div 50 (js_div (js_sub 60007 7) 60000)) = 50"
    by code_simp
  have rate: "Math_round (js_mul (js_div 5 100) 100) = 5"
    by code_simp
  have slow: "Math_round (js_div 3 (js_div (js_sub 1607 7) 60000)) = 112"
    by code_simp
  have errs: "Math_round (js_mul (js_div 23 40) 100) = 57"
    by code_simp
  have first: "processingSpeed (metrics (updateProcessingMetrics DEFAULT_THRESHOLDS 7 100 0 0
      (initial_monitor 7 7 7))) = 0"
    using processing_update_rates [of 7 "initial_monitor 7 7 7" DEFAULT_THRESHOLDS 100 0 0]
    by (simp add: start)
  have second: "processingSpeed (metrics (updateProcessingMetrics DEFAULT_THRESHOLDS 60007 100 50 5
      (initial_monitor 7 7 7))) = Math_round (js_div 50 (js_div (js_sub 60007 7) 60000))"
    using processing_update_rates [of 60007 "initial_monitor 7 7 7" DEFAULT_THRESHOLDS 100 50 5]
    by (simp add: start)
  have third: "errorRate (metrics (updateProcessingMetrics DEFAULT_THRESHOLDS 60007 100 50 5
      (initial_monitor 7 7 7))) = Math_round (js_mul (js_div 5 100) 100)"
    using processing_update_rates [of 60007 "initial_monitor 7 7 7" DEFAULT_THRESHOLDS 100 50 5]
    by simp
  have fourth: "processingSpeed (metrics (updateProcessingMetrics DEFAULT_THRESHOLDS 1607 100 3 0
      (initial_monitor 7 7 7))) = Math_round (js_div 3 (js_div (js_sub 1607 7) 60000))"
    using processing_update_rates [of 1607 "initial_monitor 7 7 7" DEFAULT_THRESHOLDS 100 3 0]
    by (simp add: start)
  have fifth: "errorRate (metrics (updateProcessingMetrics DEFAULT_THRESHOLDS 60007 40 40 23
      (initial_monitor 7 7 7))) = Math_round (js_mul (js_div 23 40) 100)"
    using processing_update_rates [of 60007 "initial_monitor 7 7 7" DEFAULT_THRESHOLDS 40 40 23]
    by simp
  show ?thesis
    by (simp only: first second third fourth fifth speed rate slow errs simp_thms)
qed

text \<open>
  C5 as stated fails: with 23 errors in 40 rows the error rate is 57, while the rounded
  value of 100 times 23 divided by 40, which is 57.5, is 58, computed exactly or in doubles.
\<close>

theorem error_rate_rounds_quotient_first:
  "errorRate (metrics (updateProcessingMetrics DEFAULT_THRESHOLDS 60007 40 40 23
      (initial_monitor 7 7 7))) = 57 \<and>
   Math_round (100 * 23 / 40) = 58 \<and>
   Math_round (js_div (js_mul 100 23) 40) = 58"
  by code_simp

text \<open>
  C6. The alerts never hold the same text twice, whatever sequence of recording operations
  has run; adding a text that is already there changes nothing; a second memory sample
  with the same reading adds nothing, so two breaching samples in a row on a fresh hook
  leave exactly one alert.
\<close>

theorem alert_set_deduplicated:
  "distinct (alerts (monitor_run th es (initial_monitor t0 t1 t2))) \<and>
   (a \<in> set prev \<longrightarrow> add_alert prev a = prev) \<and>
   alerts (measureMemoryUsage th (Some bytes) now2 (measureMemoryUsage th (Some bytes) now1 st)) =
     alerts (measureMemoryUsage th (Some bytes) now1 st) \<and>
   (bytes / 1024 / 1024 > maxMemoryUsage th \<longrightarrow>
      length (alerts (measureMemoryUsage th (Some bytes) now2
        (measureMemoryUsage th (Some bytes) now1 (initial_monitor t0 t1 t2)))) = 1)"
proof -
  have "distinct (alerts (monitor_run th es (initial_monitor t0 t1 t2)))"
    by (rule monitor_run_distinct) (simp add: initial_monitor_def)
  moreover have "a \<in> set prev \<longrightarrow> add_alert prev a = prev"
    by (simp add: add_alert_def)
  moreover have "alerts (measureMemoryUsage th (Some bytes) now2
        (measureMemoryUsage th (Some bytes) now1 st)) =
      alerts (measureMemoryUsage th (Some bytes) now1 st)"
    by (simp add: measureMemoryUsage_def Let_def add_alert_again)
  moreover have "bytes / 1024 / 1024 > maxMemoryUsage th \<longrightarrow>
      length (alerts (measureMemoryUsage th (Some bytes) now2
        (measureMemoryUsage th (Some bytes) now1 (initial_monitor t0 t1 t2)))) = 1"
    by (simp add: measureMemoryUsage_def Let_def add_alert_def initial_monitor_def)
  ultimately show ?thesis by blast
qed

text \<open>
  Two samples of 600 MB (629145600 bytes) against the default threshold of 500 MB.
\<close>

theorem alert_set_deduplicated_witness:
  "maxMemoryUsage DEFAULT_THRESHOLDS < 629145600 / 1024 / 1024 \<and>
   length (alerts (measureMemoryUsage DEFAULT_THRESHOLDS (Some 629145600) 2000
     (measureMemoryUsage DEFAULT_THRESHOLDS (Some 629145600) 0 (initial_monitor 0 0 0)))) = 1 \<and>
   alerts (measureMemoryUsage DEFAULT_THRESHOLDS (Some 629145600) 0 (initial_monitor 0 0 0)) =
     [''High memory usage: 600MB (threshold: 500MB)''] \<and>
   add_alert [''High memory usage: 600MB (threshold: 500MB)'']
     ''High memory usage: 600MB (threshold: 500MB)'' =
     [''High memory usage: 600MB (threshold: 500MB)'']"
proof -
  have breach: "maxMemoryUsage DEFAULT_THRESHOLDS < 629145600 / 1024 / 1024"
    by (simp add: DEFAULT_THRESHOLDS_def)
  have msg: "alerts (measureMemoryUsage DEFAULT_THRESHOLDS (Some 629145600) 0
      (initial_monitor 0 0 0)) = [''High memory usage: 600MB (threshold: 500MB)'']"
    by code_simp
  have present: "''High memory usage: 600MB (threshold: 500MB)'' \<in>
      set [''High memory usage: 600MB (threshold: 500MB)'']"
    by simp
  show ?thesis
    using breach msg present
      alert_set_deduplicated [of DEFAULT_THRESHOLDS "[]" 0 0 0
        "''High memory usage: 600MB (threshold: 500MB)''"
        "[''High memory usage: 600MB (threshold: 500MB)'']" 629145600 2000 0 "initial_monitor 0 0 0"]
    by simp
qed

text \<open>
  C7. The status is good exactly when no threshold is breached, warning exactly when one
  or two are, and critical exactly when three or more are; the breaches counted are those
  of memory, render time, a measured processing speed, error rate and a measured frame
  rate.
\<close>

theorem status_counts_breaches:
  "length (performance_issues th m) = breached_count th m \<and>
   (getPerformanceStatus th m = ''good'') = (breached_count th m = 0) \<and>
   (getPerformanceStatus th m = ''warning'') = (1 \<le> breached_count th m \<and> breached_count th m \<le> 2) \<and>
   (getPerformanceStatus th m = ''critical'') = (3 \<le> breached_count th m)"
proof -
  have len: "length (performance_issues th m) = breached_count th m"
    by (simp add: performance_issues_def breached_count_def)
  show ?thesis
    unfolding getPerformanceStatus_def Let_def len
    by (cases "breached_count th m = 0"; cases "breached_count th m \<le> 2") (simp_all add: len)
qed


section \<open>Properties of the virtual table\<close>

subsection \<open>The sort\<close>

lemma set_insert_by: "set (insert_by cmp x ys) = insert x (set ys)"
  by (induction ys) auto

lemma set_array_sort: "set (array_sort cmp xs) = set xs"
  by (induction xs) (simp_all add: array_sort_def set_insert_by)

lemma distinct_insert_by: "distinct (insert_by cmp x ys) = (x \<notin> set ys \<and> distinct ys)"
  by (induction ys) (auto simp: set_insert_by)

lemma distinct_array_sort: "distinct (array_sort cmp xs) = distinct xs"
  by (induction xs) (simp_all add: array_sort_def distinct_insert_by set_array_sort[unfolded array_sort_def])

lemma length_insert_by: "length (insert_by cmp x ys) = Suc (length ys)"
  by (induction ys) auto

lemma length_array_sort: "length (array_sort cmp xs) = length xs"
  by (induction xs) (simp_all add: array_sort_def length_insert_by)

lemma array_sort_Cons: "array_sort cmp (x # xs) = insert_by cmp x (array_sort cmp xs)"
  by (simp add: array_sort_def)

lemma successively_insert_by:
  assumes tot: "\<And>x y. \<not> cmp x y \<le> 0 \<Longrightarrow> cmp y x \<le> 0"
  shows "successively (\<lambda>a b. cmp a b \<le> 0) ys \<Longrightarrow> successively (\<lambda>a b. cmp a b \<le> 0) (insert_by cmp x ys)"
proof (induction ys)
  case Nil
  then show ?case by simp
next
  case (Cons y ys)
  show ?case
  proof (cases "cmp x y \<le> 0")
    case True
    with Cons.prems show ?thesis by simp
  next
    case False
    then have yx: "cmp y x \<le> 0" by (rule tot)
    from Cons.prems have "successively (\<lambda>a b. cmp a b \<le> 0) ys"
      by (cases ys) simp_all
    then have ih: "successively (\<lambda>a b. cmp a b \<le> 0) (insert_by cmp x ys)" by (rule Cons.IH)
    show ?thesis
    proof (cases ys)
      case Nil
      with False yx show ?thesis by simp
    next
      case (Cons z zs)
      with False yx ih Cons.prems show ?thesis by (auto simp: successively_Cons)
    qed
  qed
qed

lemma successively_array_sort:
  assumes tot: "\<And>x y. \<not> cmp x y \<le> 0 \<Longrightarrow> cmp y x \<le> 0"
  shows "successively (\<lambda>a b. cmp a b \<le> 0) (array_sort cmp xs)"
  by (induction xs) (simp_all add: array_sort_Cons successively_insert_by[OF tot] array_sort_def)

lemma array_sort_fixed:
  "successively (\<lambda>a b. cmp a b \<le> 0) xs \<Longrightarrow> array_sort cmp xs = xs"
proof (induction xs)
  case Nil
  then show ?case by (simp add: array_sort_def)
next
  case (Cons x xs)
  then have "array_sort cmp xs = xs" by (cases xs) simp_all
  with Cons.prems show ?case by (cases xs) (simp_all add: array_sort_Cons)
qed

lemma array_sort_idem:
  assumes tot: "\<And>x y. \<not> cmp x y \<le> 0 \<Longrightarrow> cmp y x \<le> 0"
  shows "array_sort cmp (array_sort cmp xs) = array_sort cmp xs"
  by (rule array_sort_fixed) (rule successively_array_sort[OF tot])

lemma filter_insert_by:
  assumes eq: "\<And>y. f y = f x \<Longrightarrow> cmp x y \<le> 0"
  shows "filter (\<lambda>r. f r = k) (insert_by cmp x ys) = filter (\<lambda>r. f r = k) (x # ys)"
proof (induction ys)
  case Nil
  then show ?case by simp
next
  case (Cons y ys)
  then show ?case using eq[of y] by auto
qed

lemma filter_array_sort:
  assumes eq: "\<And>x y. f y = f x \<Longrightarrow> cmp x y \<le> 0"
  shows "filter (\<lambda>r. f r = k) (array_sort cmp xs) = filter (\<lambda>r. f r = k) xs"
proof (induction xs)
  case Nil
  then show ?case by (simp add: array_sort_def)
next
  case (Cons x xs)
  have "filter (\<lambda>r. f r = k) (array_sort cmp (x # xs)) = filter (\<lambda>r. f r = k) (x # array_sort cmp xs)"
    unfolding array_sort_Cons by (rule filter_insert_by) (rule eq)
  with Cons show ?case by simp
qed

lemma sorted_wrt_insert_by:
  assumes tot: "\<And>y. y \<in> set ys \<Longrightarrow> \<not> cmp x y \<le> 0 \<Longrightarrow> cmp y x \<le> 0"
    and trans: "\<And>y z. y \<in> set ys \<Longrightarrow> z \<in> set ys \<Longrightarrow> cmp x y \<le> 0 \<Longrightarrow> cmp y z \<le> 0 \<Longrightarrow> cmp x z \<le> 0"
  shows "sorted_wrt (\<lambda>a b. cmp a b \<le> 0) ys \<Longrightarrow> sorted_wrt (\<lambda>a b. cmp a b \<le> 0) (insert_by cmp x ys)"
  using tot trans
proof (induction ys)
  case Nil
  then show ?case by simp
next
  case (Cons y ys)
  show ?case
  proof (cases "cmp x y \<le> 0")
    case True
    have "\<forall>z\<in>set ys. cmp x z \<le> 0"
    proof
      fix z assume z: "z \<in> set ys"
      with Cons.prems(1) have "cmp y z \<le> 0" by simp
      with Cons.prems(3)[of y z] True z show "cmp x z \<le> 0" by simp
    qed
    with True Cons.prems(1) show ?thesis by simp
  next
    case False
    then have yx: "cmp y x \<le> 0" using Cons.prems(2)[of y] by simp
    have "sorted_wrt (\<lambda>a b. cmp a b \<le> 0) (insert_by cmp x ys)"
      using Cons.prems by (intro Cons.IH) auto
    with False yx Cons.prems(1) show ?thesis by (auto simp: set_insert_by)
  qed
qed

lemma indexOf_ge: "x \<in> set xs \<Longrightarrow> 0 \<le> indexOf xs x"
  by (induction xs) (auto simp: Let_def)

lemma indexOf_notin: "x \<notin> set xs \<Longrightarrow> indexOf xs x = - 1"
  by (induction xs) (auto simp: Let_def)

lemma indexOf_nth: "x \<in> set xs \<Longrightarrow> nat (indexOf xs x) < length xs \<and> xs ! nat (indexOf xs x) = x"
proof (induction xs)
  case Nil
  then show ?case by simp
next
  case (Cons y ys)
  show ?case
  proof (cases "y = x")
    case True
    then show ?thesis by simp
  next
    case False
    with Cons.prems have x: "x \<in> set ys" by simp
    from indexOf_ge[OF x] Cons.IH[OF x] False show ?thesis
      by (simp add: Let_def nat_add_distrib)
  qed
qed

lemma indexOf_nth_distinct: "distinct xs \<Longrightarrow> i < length xs \<Longrightarrow> indexOf xs (xs ! i) = int i"
proof (induction xs arbitrary: i)
  case Nil
  then show ?case by simp
next
  case (Cons y ys)
  show ?case
  proof (cases i)
    case 0
    then show ?thesis by simp
  next
    case (Suc j)
    with Cons.prems have "ys ! j \<noteq> y" "indexOf ys (ys ! j) = int j" 
      using Cons.IH[of j] by auto
    with Suc show ?thesis by (auto simp: Let_def)
  qed
qed

lemma num_lt_asym: "num_lt a b \<Longrightarrow> \<not> num_lt b a"
  by (cases a; cases b) simp_all

lemma primitive_lt_asym: "primitive_lt a b \<Longrightarrow> \<not> primitive_lt b a"
  by (cases a; cases b) (auto dest: num_lt_asym)

lemma js_lt_asym: "js_lt a b \<Longrightarrow> \<not> js_lt b a"
  by (simp add: js_lt_def primitive_lt_asym)

lemma js_lt_irrefl: "\<not> js_lt a a"
  using js_lt_asym by blast

lemma compare_rows_total:
  "\<not> compare_rows rows results ec cfg x y \<le> 0 \<Longrightarrow> compare_rows rows results ec cfg y x \<le> 0"
  by (auto simp: compare_rows_def Let_def js_gt_def split: if_splits dest: js_lt_asym)

lemma compare_rows_equal_values:
  "sort_value rows results ec cfg y = sort_value rows results ec cfg x \<Longrightarrow>
   compare_rows rows results ec cfg x y \<le> 0"
  by (simp add: compare_rows_def Let_def js_gt_def js_lt_irrefl)

lemma sorted_wrt_array_sort:
  assumes tot: "\<And>x y. \<not> cmp x y \<le> 0 \<Longrightarrow> cmp y x \<le> 0"
    and trans: "\<And>x y z. x \<in> S \<Longrightarrow> y \<in> S \<Longrightarrow> z \<in> S \<Longrightarrow> cmp x y \<le> 0 \<Longrightarrow> cmp y z \<le> 0 \<Longrightarrow> cmp x z \<le> 0"
  shows "set xs \<subseteq> S \<Longrightarrow> sorted_wrt (\<lambda>a b. cmp a b \<le> 0) (array_sort cmp xs)"
proof (induction xs)
  case Nil
  then show ?case by (simp add: array_sort_def)
next
  case (Cons x xs)
  then have ih: "sorted_wrt (\<lambda>a b. cmp a b \<le> 0) (array_sort cmp xs)" by simp
  from Cons.prems have sub: "x \<in> S" "set (array_sort cmp xs) \<subseteq> S"
    by (simp_all add: set_array_sort)
  show ?case
    unfolding array_sort_Cons
  proof (rule sorted_wrt_insert_by[OF _ _ ih])
    fix y assume "\<not> cmp x y \<le> 0" then show "cmp y x \<le> 0" by (rule tot)
  next
    fix y z assume "y \<in> set (array_sort cmp xs)" "z \<in> set (array_sort cmp xs)" "cmp x y \<le> 0" "cmp y z \<le> 0"
    with sub show "cmp x z \<le> 0" using trans[of x y z] by blast
  qed
qed

lemma sorted_wrt_indexOf:
  assumes "sorted_wrt P xs" "a \<in> set xs" "b \<in> set xs" "a \<noteq> b" "\<not> P b a"
  shows "indexOf xs a < indexOf xs b"
proof -
  let ?i = "nat (indexOf xs a)" and ?j = "nat (indexOf xs b)"
  from indexOf_nth[OF assms(2)] indexOf_nth[OF assms(3)]
  have i: "?i < length xs" "xs ! ?i = a" and j: "?j < length xs" "xs ! ?j = b" by simp_all
  have nlt: "\<not> ?j < ?i"
  proof
    assume "?j < ?i"
    with assms(1) i(1) have "P (xs ! ?j) (xs ! ?i)" by (simp add: sorted_wrt_nth_less)
    with i j assms(5) show False by simp
  qed
  have neq: "?i \<noteq> ?j" using i j assms(4) by auto
  have ge: "0 \<le> indexOf xs a" "0 \<le> indexOf xs b"
    using assms(2,3) by (simp_all add: indexOf_ge)
  from nlt neq ge show ?thesis by arith
qed

lemma indexOf_filter:
  "distinct xs \<Longrightarrow> a \<in> set xs \<Longrightarrow> b \<in> set xs \<Longrightarrow> P a \<Longrightarrow> P b \<Longrightarrow>
   (indexOf (filter P xs) a < indexOf (filter P xs) b) = (indexOf xs a < indexOf xs b)"
proof (induction xs)
  case Nil
  then show ?case by simp
next
  case (Cons x xs)
  show ?case
  proof (cases "x = a \<or> x = b")
    case True
    then show ?thesis
      using Cons.prems indexOf_ge[of a xs] indexOf_ge[of b xs]
        indexOf_ge[of a "filter P xs"] indexOf_ge[of b "filter P xs"]
      by (auto simp: Let_def)
  next
    case False
    with Cons.prems have ab: "a \<in> set xs" "b \<in> set xs" "distinct xs" by auto
    from Cons.IH[OF ab(3) ab(1) ab(2) Cons.prems(4) Cons.prems(5)] False
    show ?thesis
      using indexOf_ge[OF ab(1)] indexOf_ge[OF ab(2)] Cons.prems(4,5) ab
        indexOf_ge[of a "filter P xs"] indexOf_ge[of b "filter P xs"]
      by (auto simp: Let_def)
  qed
qed

lemma stable_positions:
  assumes d: "distinct xs" and f: "filter P ys = filter P xs" and s: "set ys = set xs" and dy: "distinct ys"
    and a: "a \<in> set xs" and b: "b \<in> set xs" and pa: "P a" and pb: "P b"
  shows "(indexOf ys a < indexOf ys b) = (indexOf xs a < indexOf xs b)"
proof -
  have "(indexOf ys a < indexOf ys b) = (indexOf (filter P ys) a < indexOf (filter P ys) b)"
    using indexOf_filter[OF dy _ _ pa pb] a b s by simp
  also have "\<dots> = (indexOf xs a < indexOf xs b)"
    unfolding f by (rule indexOf_filter[OF d a b pa pb])
  finally show ?thesis .
qed

lemma sortedData_set: "set (sortedData rows results ec sc) = set rows"
  by (cases sc) (simp_all add: sortedData_def set_array_sort)

lemma sortedData_distinct: "distinct (sortedData rows results ec sc) = distinct rows"
  by (cases sc) (simp_all add: sortedData_def distinct_array_sort)

lemma sortedData_stable:
  "filter (\<lambda>r. sort_value rows results ec cfg r = k) (sortedData rows results ec (Some cfg)) =
   filter (\<lambda>r. sort_value rows results ec cfg r = k) rows"
  unfolding sortedData_def option.case
  by (rule filter_array_sort) (rule compare_rows_equal_values)

lemma sortedData_equal_values_positions:
  assumes "distinct rows" "a \<in> set rows" "b \<in> set rows"
    "sort_value rows results ec cfg a = sort_value rows results ec cfg b"
  shows "(indexOf (sortedData rows results ec (Some cfg)) a < indexOf (sortedData rows results ec (Some cfg)) b) =
         (indexOf rows a < indexOf rows b)"
  by (rule stable_positions[where P = "\<lambda>r. sort_value rows results ec cfg r = sort_value rows results ec cfg a"])
     (simp_all add: assms sortedData_stable sortedData_set sortedData_distinct)

text \<open>
  C3, as amended. When the comparison is consistent on the dataset, sorting the sorted
  rows again with the same sort configuration changes nothing, and the sort is stable:
  for every sort value, the rows carrying it come out in the order they have in the
  dataset, so two rows with equal sort values keep the relative order of their original
  row indices. Without a sort configuration the rows are shown as they are.
\<close>

theorem sort_idempotent_and_stable:
  "sortedData rows results ec None = rows \<and>
   (consistent_on (compare_rows rows results ec cfg) rows \<longrightarrow>
      array_sort (compare_rows rows results ec cfg) (sortedData rows results ec (Some cfg)) =
        sortedData rows results ec (Some cfg) \<and>
      filter (\<lambda>r. sort_value rows results ec cfg r = k) (sortedData rows results ec (Some cfg)) =
        filter (\<lambda>r. sort_value rows results ec cfg r = k) rows \<and>
      (distinct rows \<and> a \<in> set rows \<and> b \<in> set rows \<and>
       sort_value rows results ec cfg a = sort_value rows results ec cfg b \<longrightarrow>
         (indexOf (sortedData rows results ec (Some cfg)) a <
            indexOf (sortedData rows results ec (Some cfg)) b) =
         (indexOf rows a < indexOf rows b)))"
proof (intro conjI impI)
  show "sortedData rows results ec None = rows"
    by (simp add: sortedData_def)
  show "array_sort (compare_rows rows results ec cfg) (sortedData rows results ec (Some cfg)) =
      sortedData rows results ec (Some cfg)"
    unfolding sortedData_def option.case
    by (rule array_sort_idem) (rule compare_rows_total)
  show "filter (\<lambda>r. sort_value rows results ec cfg r = k) (sortedData rows results ec (Some cfg)) =
      filter (\<lambda>r. sort_value rows results ec cfg r = k) rows"
    by (rule sortedData_stable)
next
  assume h: "distinct rows \<and> a \<in> set rows \<and> b \<in> set rows \<and>
    sort_value rows results ec cfg a = sort_value rows results ec cfg b"
  show "(indexOf (sortedData rows results ec (Some cfg)) a <
         indexOf (sortedData rows results ec (Some cfg)) b) =
      (indexOf rows a < indexOf rows b)"
    by (rule sortedData_equal_values_positions) (simp_all add: h)
qed

text \<open>
  Four rows with the identity cells \<open>b, a, b, a\<close>, sorted ascending by the identity
  column.
\<close>

theorem sort_idempotent_and_stable_witness:
  "consistent_on (compare_rows duplicate_rows Map.empty (Some ''email'') by_email) duplicate_rows \<and>
   map ref (sortedData duplicate_rows Map.empty (Some ''email'') (Some by_email)) = [1, 3, 0, 2] \<and>
   indexOf (sortedData duplicate_rows Map.empty (Some ''email'') (Some by_email)) (duplicate_rows ! 0) <
     indexOf (sortedData duplicate_rows Map.empty (Some ''email'') (Some by_email)) (duplicate_rows ! 2) \<and>
   array_sort (compare_rows duplicate_rows Map.empty (Some ''email'') by_email)
     (sortedData duplicate_rows Map.empty (Some ''email'') (Some by_email)) =
     sortedData duplicate_rows Map.empty (Some ''email'') (Some by_email)"
proof -
  have c: "consistent_on (compare_rows duplicate_rows Map.empty (Some ''email'') by_email)
      duplicate_rows"
    by code_simp
  have order: "map ref (sortedData duplicate_rows Map.empty (Some ''email'') (Some by_email)) = [1, 3, 0, 2]"
    by code_simp
  have d: "distinct duplicate_rows" by code_simp
  have a: "duplicate_rows ! 0 \<in> set duplicate_rows" by code_simp
  have b: "duplicate_rows ! 2 \<in> set duplicate_rows" by code_simp
  have eq: "sort_value duplicate_rows Map.empty (Some ''email'') by_email (duplicate_rows ! 0) =
      sort_value duplicate_rows Map.empty (Some ''email'') by_email (duplicate_rows ! 2)"
    by code_simp
  have idx: "indexOf duplicate_rows (duplicate_rows ! 0) < indexOf duplicate_rows (duplicate_rows ! 2)"
    by code_simp
  from sort_idempotent_and_stable [of duplicate_rows Map.empty "Some ''email''" by_email
        "JString ''b@x.com''" "duplicate_rows ! 0" "duplicate_rows ! 2"] c d a b eq idx
  have "array_sort (compare_rows duplicate_rows Map.empty (Some ''email'') by_email)
     (sortedData duplicate_rows Map.empty (Some ''email'') (Some by_email)) =
     sortedData duplicate_rows Map.empty (Some ''email'') (Some by_email)"
    and "indexOf (sortedData duplicate_rows Map.empty (Some ''email'') (Some by_email)) (duplicate_rows ! 0) <
     indexOf (sortedData duplicate_rows Map.empty (Some ''email'') (Some by_email)) (duplicate_rows ! 2)"
    by blast+
  with c order show ?thesis by blast
qed

text \<open>
  C3 as stated fails: in seven rows with the identity cells \<open>a, a, b, a, none, a, a\<close>
  the missing cell compares neither below nor above any other, the comparison is not
  consistent, and the V8 engine puts row 6 before row 5, which has the same sort value.
\<close>

theorem v8_reorders_equal_rows:
  "\<not> consistent_on (compare_rows gapped_rows Map.empty (Some ''email'') by_email) gapped_rows \<and>
   sort_value gapped_rows Map.empty (Some ''email'') by_email (gapped_rows ! 5) =
     sort_value gapped_rows Map.empty (Some ''email'') by_email (gapped_rows ! 6) \<and>
   indexOf gapped_rows (gapped_rows ! 5) < indexOf gapped_rows (gapped_rows ! 6) \<and>
   map ref (sortedData_v8 gapped_rows Map.empty (Some ''email'') (Some by_email)) =
     [0, 1, 3, 6, 2, 4, 5] \<and>
   indexOf (sortedData_v8 gapped_rows Map.empty (Some ''email'') (Some by_email)) (gapped_rows ! 6) <
     indexOf (sortedData_v8 gapped_rows Map.empty (Some ''email'') (Some by_email)) (gapped_rows ! 5)"
  by code_simp

lemma consistent_onD:
  assumes "consistent_on cmp xs" and "x \<in> set xs" and "y \<in> set xs" and "z \<in> set xs"
    and "cmp x y \<le> 0" and "cmp y z \<le> 0"
  shows "cmp x z \<le> 0"
proof -
  from assms(1) have "\<forall>x\<in>set xs. \<forall>y\<in>set xs. \<forall>z\<in>set xs.
      if cmp x y \<le> 0 \<and> cmp y z \<le> 0 then cmp x z \<le> 0 else True"
    by (simp only: consistent_on_def list_all_iff)
  with assms(2-4) have "if cmp x y \<le> 0 \<and> cmp y z \<le> 0 then cmp x z \<le> 0 else True"
    by blast
  with assms(5,6) show ?thesis by simp
qed

lemma sortedData_sorted_wrt:
  assumes "consistent_on (compare_rows rows results ec cfg) rows"
  shows "sorted_wrt (\<lambda>a b. compare_rows rows results ec cfg a b \<le> 0) (sortedData rows results ec (Some cfg))"
  unfolding sortedData_def option.case
proof (rule sorted_wrt_array_sort[where S = "set rows"])
  fix x y assume "\<not> compare_rows rows results ec cfg x y \<le> 0"
  then show "compare_rows rows results ec cfg y x \<le> 0" by (rule compare_rows_total)
next
  fix x y z assume "x \<in> set rows" "y \<in> set rows" "z \<in> set rows"
    "compare_rows rows results ec cfg x y \<le> 0" "compare_rows rows results ec cfg y z \<le> 0"
  with assms show "compare_rows rows results ec cfg x z \<le> 0" by (rule consistent_onD)
qed simp

lemma ascending_lower_first:
  assumes c: "consistent_on (compare_rows rows results ec cfg) rows"
    and asc: "direction cfg = asc"
    and a: "a \<in> set rows" and b: "b \<in> set rows"
    and lt: "js_lt (sort_value rows results ec cfg a) (sort_value rows results ec cfg b)"
  shows "indexOf (sortedData rows results ec (Some cfg)) a < indexOf (sortedData rows results ec (Some cfg)) b"
proof (rule sorted_wrt_indexOf[OF sortedData_sorted_wrt[OF c]])
  show "a \<in> set (sortedData rows results ec (Some cfg))" using a by (simp add: sortedData_set)
  show "b \<in> set (sortedData rows results ec (Some cfg))" using b by (simp add: sortedData_set)
  show "a \<noteq> b" using lt js_lt_irrefl by auto
  show "\<not> compare_rows rows results ec cfg b a \<le> 0"
    using lt asc js_lt_asym[OF lt] by (simp add: compare_rows_def Let_def js_gt_def)
qed

lemma absent_sort_value:
  "key cfg \<noteq> ''email'' \<Longrightarrow> \<not> ToBoolean (enrichment_value (results (indexOf rows a)) (key cfg)) \<Longrightarrow>
   sort_value rows results ec cfg a = JString []"
  by (simp add: sort_value_def js_or_def)

text \<open>
  C2, as amended. For a dataset of distinct row objects, an ascending sort by a field
  name, and a comparison that is consistent on the dataset: every row whose value for the
  field is missing or falsy comes before every row whose sort value compares above the
  empty string, and rows with equal sort values appear in ascending order of their
  original row indices.
\<close>
theorem ascending_field_sort_empty_first:
  assumes "distinct rows" and "key cfg \<noteq> ''email''" and "direction cfg = asc"
    and "consistent_on (compare_rows rows results ec cfg) rows"
    and "a \<in> set rows" and "b \<in> set rows"
  shows "(\<not> ToBoolean (enrichment_value (results (indexOf rows a)) (key cfg)) \<and>
          js_lt (JString []) (sort_value rows results ec cfg b) \<longrightarrow>
            indexOf (sortedData rows results ec (Some cfg)) a <
              indexOf (sortedData rows results ec (Some cfg)) b) \<and>
         (sort_value rows results ec cfg a = sort_value rows results ec cfg b \<longrightarrow>
            (indexOf (sortedData rows results ec (Some cfg)) a <
               indexOf (sortedData rows results ec (Some cfg)) b) =
            (indexOf rows a < indexOf rows b))"
proof (intro conjI impI)
  assume h: "\<not> ToBoolean (enrichment_value (results (indexOf rows a)) (key cfg)) \<and>
          js_lt (JString []) (sort_value rows results ec cfg b)"
  then have "sort_value rows results ec cfg a = JString []"
    using assms(2) by (simp add: absent_sort_value)
  with h have "js_lt (sort_value rows results ec cfg a) (sort_value rows results ec cfg b)" by simp
  with assms show "indexOf (sortedData rows results ec (Some cfg)) a <
              indexOf (sortedData rows results ec (Some cfg)) b"
    by (intro ascending_lower_first)
next
  assume "sort_value rows results ec cfg a = sort_value rows results ec cfg b"
  with assms show "(indexOf (sortedData rows results ec (Some cfg)) a <
               indexOf (sortedData rows results ec (Some cfg)) b) =
            (indexOf rows a < indexOf rows b)"
    by (intro sortedData_equal_values_positions)
qed

text \<open>
  The end-to-end scenario sorted ascending by \<open>score\<close>: row 0, row 2, row 1.
\<close>

theorem ascending_field_sort_empty_first_witness:
  "sortedData scenario_rows scenario_results (Some ''email'') (Some by_score) =
     [scenario_rows ! 0, scenario_rows ! 2, scenario_rows ! 1] \<and>
   indexOf (sortedData scenario_rows scenario_results (Some ''email'') (Some by_score)) (scenario_rows ! 2) <
     indexOf (sortedData scenario_rows scenario_results (Some ''email'') (Some by_score)) (scenario_rows ! 1) \<and>
   indexOf (sortedData scenario_rows scenario_results (Some ''email'') (Some by_score)) (scenario_rows ! 0) <
     indexOf (sortedData scenario_rows scenario_results (Some ''email'') (Some by_score)) (scenario_rows ! 2)"
proof -
  have order: "sortedData scenario_rows scenario_results (Some ''email'') (Some by_score) =
     [scenario_rows ! 0, scenario_rows ! 2, scenario_rows ! 1]"
    by code_simp
  have d: "distinct scenario_rows" by code_simp
  have k: "key by_score \<noteq> ''email''" by code_simp
  have dir: "direction by_score = asc" by code_simp
  have c: "consistent_on (compare_rows scenario_rows scenario_results (Some ''email'') by_score) scenario_rows"
    by code_simp
  have r0: "scenario_rows ! 0 \<in> set scenario_rows" by code_simp
  have r1: "scenario_rows ! 1 \<in> set scenario_rows" by code_simp
  have r2: "scenario_rows ! 2 \<in> set scenario_rows" by code_simp
  have absent: "\<not> ToBoolean (enrichment_value
      (scenario_results (indexOf scenario_rows (scenario_rows ! 2))) (key by_score))"
    by code_simp
  have above: "js_lt (JString []) (sort_value scenario_rows scenario_results (Some ''email'') by_score
      (scenario_rows ! 1))"
    by code_simp
  have tie: "sort_value scenario_rows scenario_results (Some ''email'') by_score (scenario_rows ! 0) =
      sort_value scenario_rows scenario_results (Some ''email'') by_score (scenario_rows ! 2)"
    by code_simp
  have idx: "indexOf scenario_rows (scenario_rows ! 0) < indexOf scenario_rows (scenario_rows ! 2)"
    by code_simp
  from ascending_field_sort_empty_first [OF d k dir c r2 r1] absent above
  have first: "indexOf (sortedData scenario_rows scenario_results (Some ''email'') (Some by_score))
      (scenario_rows ! 2) <
    indexOf (sortedData scenario_rows scenario_results (Some ''email'') (Some by_score))
      (scenario_rows ! 1)"
    by blast
  from ascending_field_sort_empty_first [OF d k dir c r0 r2] tie idx
  have second: "indexOf (sortedData scenario_rows scenario_results (Some ''email'') (Some by_score))
      (scenario_rows ! 0) <
    indexOf (sortedData scenario_rows scenario_results (Some ''email'') (Some by_score))
      (scenario_rows ! 2)"
    by blast
  from order first second show ?thesis by blast
qed

text \<open>
  C2 as stated fails: a row with the score 0 stays before a row with no score, and a row
  with the score -5 is sorted before the rows with no score.
\<close>

theorem present_value_before_absent:
  "enrichment_value (zero_score_results (indexOf scenario_rows (scenario_rows ! 0))) ''score'' =
     JNumber (Finite 0) \<and>
   enrichment_value (zero_score_results (indexOf scenario_rows (scenario_rows ! 1))) ''score'' =
     JUndefined \<and>
   indexOf (sortedData scenario_rows zero_score_results None (Some by_score)) (scenario_rows ! 0) <
     indexOf (sortedData scenario_rows zero_score_results None (Some by_score)) (scenario_rows ! 1) \<and>
   enrichment_value (negative_score_results (indexOf scenario_rows (scenario_rows ! 1))) ''score'' =
     JNumber (Finite (- 5)) \<and>
   enrichment_value (negative_score_results (indexOf scenario_rows (scenario_rows ! 0))) ''score'' =
     JUndefined \<and>
   indexOf (sortedData scenario_rows negative_score_results None (Some by_score)) (scenario_rows ! 1) <
     indexOf (sortedData scenario_rows negative_score_results None (Some by_score)) (scenario_rows ! 0)"
  by code_simp






text \<open>
  C1. The auto-scroll effect hands the row index itself to the list. With the rows
  \<open>c, b, a\<close> sorted ascending by the identity column and row 0 being processed,
  the list is scrolled to item 0, which shows row 2, while row 0 stands at position 2 of
  the sorted order.
\<close>
theorem auto_scroll_uses_row_index:
  "autoScroll 0 True = Some 0 \<and>
   indexOf (sortedData reversed_rows Map.empty (Some ''email'') (Some by_email)) (reversed_rows ! 0) = 2 \<and>
   sortedData reversed_rows Map.empty (Some ''email'') (Some by_email) ! 0 = reversed_rows ! 2"
  by code_simp

subsection \<open>Selection, status and cells\<close>

lemma fcard_row_indices: "fcard (fset_of_list (map int [0..<n])) = n"
proof -
  have "card (set (map int [0..<n])) = length (map int [0..<n])"
    by (rule distinct_card) (simp add: distinct_map)
  then show ?thesis by (simp add: fcard.rep_eq fset_of_list.rep_eq)
qed

text \<open>
  C4, as amended. Select-all empties the selection when its size equals the number of
  rows and otherwise selects every row index; two calls in a row leave the selection empty
  when the dataset is not empty and the size of the prior selection differs from the
  number of rows.
\<close>
theorem select_all_toggles:
  "(fcard selectedRows = length rows \<longrightarrow> handleSelectAll rows selectedRows = {||}) \<and>
   (fcard selectedRows \<noteq> length rows \<longrightarrow>
      handleSelectAll rows selectedRows = fset_of_list (map int [0..<length rows])) \<and>
   (rows \<noteq> [] \<and> fcard selectedRows \<noteq> length rows \<longrightarrow>
      handleSelectAll rows (handleSelectAll rows selectedRows) = {||})"
proof -
  have full: "handleSelectAll rows (fset_of_list (map int [0..<length rows])) = {||}"
    by (simp only: handleSelectAll_def fcard_row_indices refl if_True)
  have twice: "handleSelectAll rows (handleSelectAll rows selectedRows) = {||}"
    if "fcard selectedRows \<noteq> length rows"
  proof -
    from that have "handleSelectAll rows selectedRows = fset_of_list (map int [0..<length rows])"
      by (simp only: handleSelectAll_def if_False)
    with full show ?thesis by (simp only:)
  qed
  have once: "fcard selectedRows = length rows \<longrightarrow> handleSelectAll rows selectedRows = {||}"
    by (simp add: handleSelectAll_def)
  have other: "fcard selectedRows \<noteq> length rows \<longrightarrow>
      handleSelectAll rows selectedRows = fset_of_list (map int [0..<length rows])"
    by (simp add: handleSelectAll_def)
  from once other twice show ?thesis by blast
qed

text \<open>
  On the three rows of the scenario: from the empty selection, and from the full one.
\<close>

theorem select_all_toggles_witness:
  "handleSelectAll scenario_rows {||} = {|0, 1, 2|} \<and>
   handleSelectAll scenario_rows (handleSelectAll scenario_rows {||}) = {||} \<and>
   handleSelectAll scenario_rows {|0, 1, 2|} = {||}"
proof -
  have n: "scenario_rows \<noteq> []" by code_simp
  have c: "fcard ({||} :: int fset) \<noteq> length scenario_rows" by code_simp
  have c': "fcard ({|0, 1, 2|} :: int fset) = length scenario_rows" by code_simp
  have full: "fset_of_list (map int [0..<length scenario_rows]) = {|0, 1, 2|}" by code_simp
  show ?thesis
    using n c c' full select_all_toggles [of "{||}" scenario_rows]
      select_all_toggles [of "{|0, 1, 2|}" scenario_rows]
    by simp
qed

text \<open>
  C4 as stated fails: from the full selection, two calls select every row again.
\<close>

theorem select_all_twice_from_full_selection:
  "scenario_rows \<noteq> [] \<and>
   handleSelectAll scenario_rows (handleSelectAll scenario_rows {|0, 1, 2|}) = {|0, 1, 2|} \<and>
   handleSelectAll scenario_rows (handleSelectAll scenario_rows {|0, 1, 2|}) \<noteq> {||}"
  by code_simp

text \<open>
  C9. A row that has a result whose status is absent or empty is shown as completed,
  whatever the currently processing row is.
\<close>
theorem result_without_status_is_completed:
  "results rowIndex = Some r \<Longrightarrow> status r = None \<or> status r = Some [] \<Longrightarrow>
   getRowStatus results currentProcessingRow rowIndex = ''completed''"
  by (auto simp: getRowStatus_def)

text \<open>
  Row 2 has a result without status and is the row being processed.
\<close>

theorem result_without_status_is_completed_witness:
  "getRowStatus [2 \<mapsto> \<lparr>status = None, enrichments = Map.empty\<rparr>] 2 2 = ''completed'' \<and>
   getRowStatus [2 \<mapsto> \<lparr>status = Some [], enrichments = Map.empty\<rparr>] 2 2 = ''completed'' \<and>
   getRowStatus Map.empty 2 2 = ''processing''"
proof -
  have "getRowStatus Map.empty 2 2 = ''processing''" by (simp add: getRowStatus_def)
  then show ?thesis
    using result_without_status_is_completed
        [of "[2 \<mapsto> \<lparr>status = None, enrichments = Map.empty\<rparr>]" 2
          "\<lparr>status = None, enrichments = Map.empty\<rparr>" 2]
      result_without_status_is_completed
        [of "[2 \<mapsto> \<lparr>status = Some [], enrichments = Map.empty\<rparr>]" 2
          "\<lparr>status = Some [], enrichments = Map.empty\<rparr>" 2]
    by simp
qed

text \<open>
  C10. A field cell shows the confidence badge exactly when the enrichment has a
  confidence that is not 0; a confidence of 0 gives no badge, and a positive confidence
  gives the badge with the rounded percentage, the product with 100 being the nearest
  double.
\<close>

theorem confidence_badge_iff_nonzero:
  "(\<exists>t. confidence_node c = Some (Badge t)) = (\<exists>x. c = Some x \<and> x \<noteq> 0) \<and>
   (\<exists>t. snd (field_cell result f) = Some (Badge t)) =
     (\<exists>r e x. result = Some r \<and> enrichments r f = Some e \<and> confidence e = Some x \<and> x \<noteq> 0) \<and>
   (result = Some r \<and> enrichments r f = Some e \<and> confidence e = Some x \<and> x > 0 \<longrightarrow>
      snd (field_cell result f) =
        Some (Badge (Number_toString (Math_round (js_mul x 100)) @ ''%'')))"
  by (auto simp: confidence_node_def field_cell_def Let_def split: option.splits)

text \<open>
  A confidence of 0.015, whose product with 100 is the double 1.5, gives the badge
  \<open>2%\<close>; the cells of rows 1 and 0 of the scenario are \<open>42\<close> with the badge
  \<open>90%\<close>, and \<open>-\<close> with none.
\<close>

theorem confidence_badge_iff_nonzero_witness:
  "field_cell (Some low_confidence_result) ''stage'' = (''seed'', Some (Badge ''2%'')) \<and>
   snd (field_cell (Some low_confidence_result) ''stage'') =
     Some (Badge (Number_toString (Math_round (js_mul (to_double (15 / 1000)) 100)) @ ''%'')) \<and>
   field_cell (scenario_results 1) ''score'' = (''42'', Some (Badge ''90%'')) \<and>
   confidence_node (Some 0) = Some (TextNode ''0'') \<and>
   field_cell (scenario_results 0) ''score'' = (''-'', None)"
proof -
  have cell: "field_cell (Some low_confidence_result) ''stage'' = (''seed'', Some (Badge ''2%''))"
    by code_simp
  have cell': "field_cell (scenario_results 1) ''score'' = (''42'', Some (Badge ''90%''))"
    by code_simp
  have zero: "confidence_node (Some 0) = Some (TextNode ''0'')" by code_simp
  have none: "field_cell (scenario_results 0) ''score'' = (''-'', None)" by code_simp
  have e: "enrichments low_confidence_result ''stage'' =
      Some \<lparr>value = JString ''seed'', confidence = Some (to_double (15 / 1000))\<rparr>"
    by (simp add: low_confidence_result_def)
  have pos: "0 < to_double (15 / 1000)"
    by (simp add: to_double_pos)
  have badge: "snd (field_cell (Some low_confidence_result) ''stage'') =
      Some (Badge (Number_toString (Math_round (js_mul (to_double (15 / 1000)) 100)) @ ''%''))"
    using confidence_badge_iff_nonzero
      [of None "Some low_confidence_result" "''stage''" low_confidence_result
        "\<lparr>value = JString ''seed'', confidence = Some (to_double (15 / 1000))\<rparr>"
        "to_double (15 / 1000)"] e pos
    by simp
  from cell cell' zero none badge show ?thesis by blast
qed

end
